theory Spec2Isabelle
  imports Main "HOL-Library.Word"
begin

section \<open>JavaScript strings\<close>

text \<open>
  A JavaScript string is a sequence of UTF-16 code units. The literals of the source are
  ASCII, so \<open>js\<close> maps each character of an Isabelle literal to its code unit.
\<close>

type_synonym jsstring = "16 word list"

definition js :: "string \<Rightarrow> jsstring" where
  "js s = map (\<lambda>c. of_nat (of_char c)) s"

text \<open>
  \<open>String.prototype.trim\<close> removes the ECMAScript WhiteSpace and LineTerminator code
  points from both ends of the string.
\<close>

definition is_js_whitespace :: "16 word \<Rightarrow> bool" where
  "is_js_whitespace c \<longleftrightarrow>
     c = 0x0009 \<or> c = 0x000A \<or> c = 0x000B \<or> c = 0x000C \<or> c = 0x000D \<or>
     c = 0x0020 \<or> c = 0x00A0 \<or> c = 0x1680 \<or>
     (0x2000 \<le> c \<and> c \<le> 0x200A) \<or>
     c = 0x2028 \<or> c = 0x2029 \<or> c = 0x202F \<or> c = 0x205F \<or>
     c = 0x3000 \<or> c = 0xFEFF"

definition trim :: "jsstring \<Rightarrow> jsstring" where
  "trim s = rev (dropWhile is_js_whitespace (rev (dropWhile is_js_whitespace s)))"

text \<open>The empty string is the only falsy string: \<open>!s\<close> is \<open>s = []\<close>.\<close>

definition falsy :: "jsstring \<Rightarrow> bool" where
  "falsy s \<longleftrightarrow> s = []"

text \<open>
  The string conversion of a number, for an integer of magnitude below \<open>2^53\<close>: a minus
  sign when negative and then every decimal digit, most significant first. From \<open>2^53\<close>
  on JavaScript prints the shortest digits that read back as the same double, padded with
  zeros, and from \<open>10^21\<close> on an exponent; neither is described by this function.
\<close>

definition digit :: "nat \<Rightarrow> 16 word" where
  "digit d = of_nat (48 + d)"

function digits :: "nat \<Rightarrow> jsstring" where
  "digits n = (if n < 10 then [digit n] else digits (n div 10) @ [digit (n mod 10)])"
  by pat_completeness auto
termination
  by (relation "measure (\<lambda>n. n)") auto

declare digits.simps [simp del]

definition number_to_string :: "int \<Rightarrow> jsstring" where
  "number_to_string i = (if i < 0 then 0x002D # digits (nat (- i)) else digits (nat i))"

section \<open>JavaScript numbers\<close>

text \<open>
  A JavaScript number is an IEEE 754 double. The numbers of this program are integers, and
  a double holds an integer \<open>x\<close> exactly when \<open>x\<close> is a multiple of \<open>2^e\<close>, where \<open>e\<close> is
  the least exponent with \<open>\<bar>x\<bar> < 2^(53 + e)\<close>; \<open>double_exp\<close> computes that exponent.
\<close>

function double_exp :: "nat \<Rightarrow> nat" where
  "double_exp n = (if n < 2 ^ 53 then 0 else Suc (double_exp (n div 2)))"
  by pat_completeness auto
termination
  by (relation "measure (\<lambda>n. n)") auto

declare double_exp.simps [simp del]

text \<open>
  Rounding an integer to the nearest double, ties to the even significand (the default
  rounding mode), for an integer below \<open>2^1024\<close> in magnitude, where a double does
  not overflow: the two multiples of \<open>2^e\<close> around \<open>x\<close> are its neighbours.
\<close>

definition round_double :: "int \<Rightarrow> int" where
  "round_double x =
     (let q = 2 ^ double_exp (nat \<bar>x\<bar>);
          r = x mod q;
          low = x - r
      in if 2 * r < q then low
         else if q < 2 * r then low + q
         else if even (low div q) then low
         else low + q)"

text \<open>The operator \<open>+\<close> on two integer-valued doubles: the exact sum, rounded.\<close>

definition js_add :: "int \<Rightarrow> int \<Rightarrow> int" where
  "js_add a b = round_double (a + b)"

section \<open>Messages (ChatInterface.tsx, page.tsx)\<close>

datatype role = User | Assistant

record source_ref =
  source :: jsstring
  page :: int
  snippet :: jsstring

text \<open>
  The optional field \<open>sources?\<close> is \<open>None\<close> when the property is absent.
\<close>

record message =
  role :: role
  content :: jsstring
  sources :: "source_ref list option"

section \<open>ChatInterface: state and submit handler\<close>

record chat_state =
  messages :: "message list"
  input :: jsstring
  loading :: bool
  showSources :: bool

text \<open>
  The \<open>useState\<close> initial values: the messages passed by the parent, an empty input,
  not loading, sources shown.
\<close>

definition ChatInterface_init :: "message list \<Rightarrow> chat_state" where
  "ChatInterface_init initialMessages =
     \<lparr>messages = initialMessages, input = [], loading = False, showSources = True\<rparr>"

text \<open>The body of the POST to \<open>/chat/\<close>.\<close>

record chat_request =
  question :: jsstring
  include_sources :: bool

text \<open>The fields of \<open>response.data\<close> that the handler reads.\<close>

record chat_response =
  answer :: jsstring
  resp_sources :: "source_ref list option"

text \<open>A rejected HTTP call carries the raw error (message and stack trace).\<close>

record http_error =
  err_message :: jsstring
  err_stack :: jsstring

text \<open>
  What the handler keeps across its \<open>await\<close>: the request it sent and the array
  \<open>updatedMessages\<close> captured by the closure.
\<close>

record pending =
  request :: chat_request
  updatedMessages :: "message list"

record toast =
  toast_title :: jsstring
  toast_description :: jsstring

definition error_text :: jsstring where
  "error_text = js ''Sorry, there was an error processing your question. Please try again.''"

text \<open>
  \<open>handleSubmit\<close> up to its \<open>await\<close>: the guard, the user message, the state updates
  and the request. \<open>None\<close> is the early return.
\<close>

definition handleSubmit_send :: "chat_state \<Rightarrow> chat_state \<times> pending option" where
  "handleSubmit_send st =
     (if falsy (trim (input st)) \<or> loading st then (st, None)
      else
        let userMessage = \<lparr>role = User, content = input st, sources = None\<rparr>;
            updated = messages st @ [userMessage]
        in (st\<lparr>messages := updated, input := [], loading := True\<rparr>,
            Some \<lparr>request = \<lparr>question = trim (input st), include_sources = showSources st\<rparr>,
                  updatedMessages = updated\<rparr>))"

text \<open>
  \<open>handleSubmit\<close> after its \<open>await\<close>: the \<open>try\<close> continuation on a response, the
  \<open>catch\<close> block on a rejection, then \<open>finally\<close>. The toasts raised are returned
  beside the state.
\<close>

definition handleSubmit_settle ::
  "pending \<Rightarrow> http_error + chat_response \<Rightarrow> chat_state \<Rightarrow> chat_state \<times> toast list" where
  "handleSubmit_settle p outcome st =
     (case outcome of
        Inr response \<Rightarrow>
          let assistantMessage =
                \<lparr>role = Assistant, content = answer response, sources = resp_sources response\<rparr>
          in (st\<lparr>messages := updatedMessages p @ [assistantMessage], loading := False\<rparr>, [])
      | Inl error \<Rightarrow>
          let errorMessage = \<lparr>role = Assistant, content = error_text, sources = None\<rparr>
          in (st\<lparr>messages := updatedMessages p @ [errorMessage], loading := False\<rparr>,
              [\<lparr>toast_title = js ''Error'',
                toast_description = js ''Failed to get a response. Please try again.''\<rparr>]))"

section \<open>ChatInterface: effects and rendering\<close>

text \<open>
  The effect on \<open>[initialMessages]\<close>: a non-empty array from the parent replaces the
  component's messages.
\<close>

definition effect_initialMessages :: "message list \<Rightarrow> chat_state \<Rightarrow> chat_state" where
  "effect_initialMessages initialMessages st =
     (if length initialMessages > 0 then st\<lparr>messages := initialMessages\<rparr> else st)"

text \<open>
  JSX children are kept as the values of the embedded expressions: a string or a number.
\<close>

datatype child = TextNode jsstring | NumNode int

record source_view =
  sv_key :: nat
  sv_title :: "child list"
  sv_snippet :: "child list"

definition render_source :: "nat \<Rightarrow> source_ref \<Rightarrow> source_view" where
  "render_source idx s =
     \<lparr>sv_key = idx,
      sv_title = [TextNode (source s), TextNode (js '' (Page ''),
                  NumNode (js_add (page s) 1), TextNode (js '')'')],
      sv_snippet = [TextNode (snippet s)]\<rparr>"

text \<open>
  The sources section of one message; \<open>None\<close> when the conditional renders nothing.
\<close>

definition render_sources :: "message \<Rightarrow> source_view list option" where
  "render_sources m =
     (if role m = Assistant
      then (case sources m of
              None \<Rightarrow> None
            | Some ss \<Rightarrow>
                if length ss > 0
                then Some (map (\<lambda>(idx, s). render_source idx s) (enumerate 0 ss))
                else None)
      else None)"

record message_view =
  mv_key :: nat
  mv_from_user :: bool
  mv_markdown :: jsstring
  mv_sources :: "source_view list option"

definition render_message :: "nat \<Rightarrow> message \<Rightarrow> message_view" where
  "render_message index m =
     \<lparr>mv_key = index, mv_from_user = (role m = User), mv_markdown = content m,
      mv_sources = render_sources m\<rparr>"

text \<open>
  The component's output: the message cards (\<open>None\<close> is the placeholder shown for an
  empty list), the "Thinking..." card, the switch, the input and the submit button.
\<close>

record chat_view =
  cv_messages :: "message_view list option"
  cv_thinking :: bool
  cv_switch_checked :: bool
  cv_input_value :: jsstring
  cv_input_disabled :: bool
  cv_submit_disabled :: bool

definition ChatInterface_render :: "chat_state \<Rightarrow> chat_view" where
  "ChatInterface_render st =
     \<lparr>cv_messages =
        (if length (messages st) = 0 then None
         else Some (map (\<lambda>(index, m). render_message index m) (enumerate 0 (messages st)))),
      cv_thinking = loading st,
      cv_switch_checked = showSources st,
      cv_input_value = input st,
      cv_input_disabled = loading st,
      cv_submit_disabled = (loading st \<or> falsy (trim (input st)))\<rparr>"

section \<open>ChatInterface as a transition system\<close>

text \<open>
  The component together with the requests it has sent and not yet heard back from.
  Each event runs against the current state: typing, the switch, a form submission, the
  arrival of the outcome of the \<open>i\<close>-th request in flight, and a new \<open>initialMessages\<close>
  from the parent.
\<close>

record chat_sys =
  ui :: chat_state
  in_flight :: "pending list"

datatype chat_event =
    SetInput jsstring
  | SetShowSources bool
  | Submit
  | Settle nat "http_error + chat_response"
  | InitialMessages "message list"

fun chat_step :: "chat_sys \<Rightarrow> chat_event \<Rightarrow> chat_sys" where
  "chat_step s (SetInput v) = s\<lparr>ui := (ui s)\<lparr>input := v\<rparr>\<rparr>"
| "chat_step s (SetShowSources b) = s\<lparr>ui := (ui s)\<lparr>showSources := b\<rparr>\<rparr>"
| "chat_step s Submit =
     (case handleSubmit_send (ui s) of
        (st, None) \<Rightarrow> s\<lparr>ui := st\<rparr>
      | (st, Some p) \<Rightarrow> s\<lparr>ui := st, in_flight := in_flight s @ [p]\<rparr>)"
| "chat_step s (Settle i outcome) =
     (if i < length (in_flight s)
      then s\<lparr>ui := fst (handleSubmit_settle (in_flight s ! i) outcome (ui s)),
             in_flight := take i (in_flight s) @ drop (Suc i) (in_flight s)\<rparr>
      else s)"
| "chat_step s (InitialMessages ms) = s\<lparr>ui := effect_initialMessages ms (ui s)\<rparr>"

definition chat_start :: "message list \<Rightarrow> chat_sys" where
  "chat_start initialMessages = \<lparr>ui = ChatInterface_init initialMessages, in_flight = []\<rparr>"

definition chat_run :: "message list \<Rightarrow> chat_event list \<Rightarrow> chat_sys" where
  "chat_run initialMessages events = foldl chat_step (chat_start initialMessages) events"

section \<open>DocumentList\<close>

record document =
  filename :: jsstring
  num_pages :: int

text \<open>
  \<open>Record<string, Document>\<close>: the object's own properties in enumeration order, which
  is the order of \<open>Object.keys\<close> and \<open>Object.entries\<close>. The keys of an object are
  distinct.
\<close>

type_synonym documents = "(jsstring \<times> document) list"

record doclist_state =
  documents :: documents
  docs_loading :: bool
  summarizing :: "jsstring option"
  summary :: "jsstring option"
  summaryDialogOpen :: bool
  currentFile :: jsstring

definition DocumentList_init :: doclist_state where
  "DocumentList_init =
     \<lparr>documents = [], docs_loading = True, summarizing = None, summary = None,
      summaryDialogOpen = False, currentFile = []\<rparr>"

text \<open>
  \<open>fetchDocuments\<close>, given the outcome of the GET: the new state, the toasts, and
  whether \<open>onRefreshComplete\<close> was called.
\<close>

definition fetchDocuments ::
  "http_error + documents \<Rightarrow> doclist_state \<Rightarrow> doclist_state \<times> toast list \<times> bool" where
  "fetchDocuments outcome st =
     (let st1 = st\<lparr>docs_loading := True\<rparr>
      in case outcome of
           Inr data \<Rightarrow> (st1\<lparr>documents := data, docs_loading := False\<rparr>, [], True)
         | Inl error \<Rightarrow>
             (st1\<lparr>docs_loading := False\<rparr>,
              [\<lparr>toast_title = js ''Error Loading Documents'',
                toast_description = js ''Could not load your documents. Please try again.''\<rparr>],
              True))"

text \<open>
  \<open>handleSummarize\<close>, given the outcome of the POST (the \<open>summary\<close> field of the
  response): the new state, the toasts, and the argument of \<open>onSummarize\<close> when it was
  called.
\<close>

definition DocumentList_handleSummarize ::
  "jsstring \<Rightarrow> jsstring \<Rightarrow> http_error + jsstring \<Rightarrow> doclist_state
     \<Rightarrow> doclist_state \<times> toast list \<times> jsstring option" where
  "DocumentList_handleSummarize docId fname outcome st =
     (let st1 = st\<lparr>summarizing := Some docId, currentFile := fname\<rparr>
      in case outcome of
           Inr summaryText \<Rightarrow>
             (st1\<lparr>summary := Some summaryText, summaryDialogOpen := True, summarizing := None\<rparr>,
              [], Some summaryText)
         | Inl error \<Rightarrow>
             (st1\<lparr>summarizing := None\<rparr>,
              [\<lparr>toast_title = js ''Summarization Failed'',
                toast_description =
                  js ''Could not summarize the document. Please try again.''\<rparr>],
              None))"

record doc_card =
  card_key :: jsstring
  card_filename :: "child list"
  card_pages :: "child list"
  card_button_disabled :: bool

definition render_card :: "doclist_state \<Rightarrow> jsstring \<times> document \<Rightarrow> doc_card" where
  "render_card st entry =
     (case entry of (docId, doc) \<Rightarrow>
        \<lparr>card_key = docId,
         card_filename = [TextNode (filename doc)],
         card_pages = [NumNode (num_pages doc), TextNode (js '' pages'')],
         card_button_disabled = (summarizing st = Some docId)\<rparr>)"

text \<open>
  The three returns of the component: the spinner, the "No documents uploaded yet"
  notice, and the list with its count and one card per entry. The summary dialog beside
  the list is left out.
\<close>

datatype doclist_view =
    LoadingView
  | NoDocumentsView
  | ListView nat "doc_card list"

definition DocumentList_render :: "doclist_state \<Rightarrow> doclist_view" where
  "DocumentList_render st =
     (let documentCount = length (map fst (documents st))
      in if docs_loading st then LoadingView
         else if documentCount = 0 then NoDocumentsView
         else ListView documentCount (map (render_card st) (documents st)))"

fun cards_of :: "doclist_view \<Rightarrow> doc_card list" where
  "cards_of LoadingView = []"
| "cards_of NoDocumentsView = []"
| "cards_of (ListView n cards) = cards"

section \<open>DocumentUpload\<close>

record js_file =
  file_name :: jsstring
  file_type :: jsstring
  file_bytes :: "8 word list"

text \<open>The fields of the upload response that \<open>onDrop\<close> reads.\<close>

record upload_response =
  resp_filename :: jsstring
  num_chunks :: int

record upload_status =
  success :: bool
  message :: jsstring

record upload_state =
  uploading :: bool
  uploadStatus :: "upload_status option"

definition DocumentUpload_init :: upload_state where
  "DocumentUpload_init = \<lparr>uploading = False, uploadStatus = None\<rparr>"

text \<open>
  What \<open>onDrop\<close> does besides updating its state: the file it posted, and whether
  \<open>onUploadSuccess\<close> was called.
\<close>

record upload_effects =
  posted :: "js_file option"
  upload_succeeded :: bool

text \<open>
  \<open>onDrop\<close>, given the accepted files and the server's answer to a posted file.
\<close>

definition onDrop ::
  "js_file list \<Rightarrow> (js_file \<Rightarrow> http_error + upload_response) \<Rightarrow> upload_state
     \<Rightarrow> upload_state \<times> upload_effects" where
  "onDrop acceptedFiles post st =
     (case acceptedFiles of
        [] \<Rightarrow> (st, \<lparr>posted = None, upload_succeeded = False\<rparr>)
      | f # rest \<Rightarrow>
          let st1 = st\<lparr>uploading := True, uploadStatus := None\<rparr>
          in (case post f of
                Inr response \<Rightarrow>
                  (st1\<lparr>uploadStatus :=
                         Some \<lparr>success = True,
                               message = js ''Successfully processed '' @ resp_filename response
                                 @ js '' with '' @ number_to_string (num_chunks response)
                                 @ js '' text chunks''\<rparr>,
                       uploading := False\<rparr>,
                   \<lparr>posted = Some f, upload_succeeded = True\<rparr>)
              | Inl error \<Rightarrow>
                  (st1\<lparr>uploadStatus :=
                         Some \<lparr>success = False,
                               message = js ''Error uploading document. Please try again.''\<rparr>,
                       uploading := False\<rparr>,
                   \<lparr>posted = Some f, upload_succeeded = False\<rparr>)))"

section \<open>Home (page.tsx) and the effects of ChatInterface\<close>

text \<open>
  React compares a state or a dependency with \<open>Object.is\<close>, which on arrays is identity,
  so every array of messages is kept with a reference: a number given to it when it is
  created. Home holds its \<open>messages\<close>, ChatInterface its own; \<open>seen_initialMessages\<close>
  and \<open>seen_messages\<close> are the arrays that the dependency lists \<open>[initialMessages]\<close> and
  \<open>[messages, onMessagesChange]\<close> held at the last commit (\<open>onMessagesChange\<close> is Home's
  state setter, which never changes); \<open>next_ref\<close> is the next unused reference.
\<close>

record home_state =
  refreshDocuments :: bool
  home_messages :: "message list"
  home_messages_ref :: nat
  chat :: chat_state
  chat_messages_ref :: nat
  seen_initialMessages :: nat
  seen_messages :: nat
  next_ref :: nat
  doclist :: doclist_state

text \<open>
  The page once mounted: Home's empty array is also ChatInterface's initial state, and
  the effects of the first commit have run (the first finds an empty array, the second
  hands Home the array it already holds).
\<close>

definition Home_init :: home_state where
  "Home_init =
     \<lparr>refreshDocuments = False, home_messages = [], home_messages_ref = 0,
      chat = ChatInterface_init [], chat_messages_ref = 0,
      seen_initialMessages = 0, seen_messages = 0, next_ref = 1,
      doclist = DocumentList_init\<rparr>"

definition Home_handleSummarize :: "jsstring \<Rightarrow> home_state \<Rightarrow> home_state" where
  "Home_handleSummarize summaryText h =
     (let newMessages =
            [\<lparr>role = User, content = js ''Please summarize this document.'', sources = None\<rparr>,
             \<lparr>role = Assistant, content = summaryText, sources = None\<rparr>]
      in h\<lparr>home_messages := newMessages, home_messages_ref := next_ref h,
            next_ref := Suc (next_ref h)\<rparr>)"

text \<open>
  A render and its commit. Both effects of ChatInterface read the values of this render:
  the effect on \<open>[initialMessages]\<close> runs when Home's array is not the one seen at the
  last commit, and sets the component's messages to it when it is not empty; the effect on
  \<open>[messages, onMessagesChange]\<close> runs when the component's array is not the one seen at
  the last commit, and hands it to Home. The two updates are applied together, for the
  next render. When neither array has changed, nothing happens.
\<close>

definition commit :: "home_state \<Rightarrow> home_state" where
  "commit h =
     (let initialMessages_changed = (home_messages_ref h \<noteq> seen_initialMessages h);
          messages_changed = (chat_messages_ref h \<noteq> seen_messages h);
          set_chat = (initialMessages_changed \<and> length (home_messages h) > 0)
      in h\<lparr>chat := (if initialMessages_changed
                      then effect_initialMessages (home_messages h) (chat h) else chat h),
            chat_messages_ref := (if set_chat then home_messages_ref h else chat_messages_ref h),
            home_messages := (if messages_changed then messages (chat h) else home_messages h),
            home_messages_ref :=
              (if messages_changed then chat_messages_ref h else home_messages_ref h),
            seen_initialMessages := home_messages_ref h,
            seen_messages := chat_messages_ref h\<rparr>)"

text \<open>The renders that follow one another while the effects keep setting state.\<close>

fun commits :: "nat \<Rightarrow> home_state \<Rightarrow> home_state" where
  "commits 0 h = h"
| "commits (Suc n) h = commits n (commit h)"

text \<open>
  The handlers of ChatInterface inside the page: \<open>setMessages\<close> is called with a new
  array, which takes a new reference.
\<close>

definition Home_submit :: "home_state \<Rightarrow> home_state \<times> pending option" where
  "Home_submit h =
     (case handleSubmit_send (chat h) of
        (c, None) \<Rightarrow> (h, None)
      | (c, Some p) \<Rightarrow>
          (h\<lparr>chat := c, chat_messages_ref := next_ref h, next_ref := Suc (next_ref h)\<rparr>,
           Some p))"

definition Home_settle :: "pending \<Rightarrow> http_error + chat_response \<Rightarrow> home_state \<Rightarrow> home_state" where
  "Home_settle p outcome h =
     h\<lparr>chat := fst (handleSubmit_settle p outcome (chat h)),
       chat_messages_ref := next_ref h, next_ref := Suc (next_ref h)\<rparr>"

text \<open>
  The outcome of a Summarize request arrives: DocumentList's handler, then Home's
  \<open>onSummarize\<close> callback when it is called. The render comes afterwards.
\<close>

definition summarize_click ::
  "jsstring \<Rightarrow> jsstring \<Rightarrow> http_error + jsstring \<Rightarrow> home_state \<Rightarrow> home_state" where
  "summarize_click docId fname outcome h =
     (case DocumentList_handleSummarize docId fname outcome (doclist h) of
        (d, toasts, called) \<Rightarrow>
          (case called of
             None \<Rightarrow> h\<lparr>doclist := d\<rparr>
           | Some summaryText \<Rightarrow> Home_handleSummarize summaryText (h\<lparr>doclist := d\<rparr>)))"

text \<open>
  A run of the page. The user types a question and submits it, and the page settles. Then
  the answer to the question and the summary of a document arrive before the next render.
\<close>

definition asked :: home_state where
  "asked =
     commits 2 (fst (Home_submit
       (Home_init\<lparr>chat := (chat Home_init)\<lparr>input := js ''What color is the sky?''\<rparr>\<rparr>)))"

definition asked_pending :: pending where
  "asked_pending =
     \<lparr>request = \<lparr>question = js ''What color is the sky?'', include_sources = True\<rparr>,
      updatedMessages =
        [\<lparr>role = User, content = js ''What color is the sky?'', sources = None\<rparr>]\<rparr>"

definition answer_and_summary :: home_state where
  "answer_and_summary =
     summarize_click (js ''d1'') (js ''sky.pdf'') (Inr (js ''A text about the sky.''))
       (Home_settle asked_pending
          (Inr \<lparr>answer = js ''Blue.'', resp_sources = None\<rparr>) asked)"

text \<open>
  A page in which the two effects exchange the arrays: Home holds one array and
  ChatInterface another, neither empty, and each dependency list last saw the array that
  the other side holds now.
\<close>

definition swapping :: "home_state \<Rightarrow> bool" where
  "swapping h \<longleftrightarrow>
     home_messages_ref h \<noteq> chat_messages_ref h \<and>
     seen_initialMessages h = chat_messages_ref h \<and>
     seen_messages h = home_messages_ref h \<and>
     home_messages h \<noteq> [] \<and> messages (chat h) \<noteq> []"

section \<open>RagService.ask (specification section 4.6)\<close>

text \<open>
  Modelled from the spec: the VectorIndex entry of section 3, the metadata from which a
  citation is rebuilt. The backend that stores it is not among the source files.
\<close>

record index_entry =
  entry_document_id :: jsstring
  entry_chunk_index :: nat
  entry_page_number :: int
  entry_snippet :: jsstring

text \<open>
  Modelled from the spec: the collaborators of RagService (Embedder, DocumentStore and
  the language model behind the Generator), which are not among the source files. They
  are parameters: the embedding of a text, the search of the whole corpus for the \<open>k\<close>
  nearest entries in rank order, the filename of a document id, and the model's
  completion, \<open>None\<close> when every candidate model fails.
\<close>

record 'v rag_deps =
  rag_embed :: "jsstring \<Rightarrow> 'v"
  rag_search :: "'v \<Rightarrow> nat \<Rightarrow> index_entry list"
  rag_filename :: "jsstring \<Rightarrow> jsstring"
  rag_complete :: "jsstring \<Rightarrow> index_entry list \<Rightarrow> jsstring option"

text \<open>
  Modelled from the spec: the Generator of section 4.5, which is not among the source
  files, as a test double that counts its invocations.
\<close>

record generator =
  gen_calls :: nat

definition Generator_answer ::
  "'v rag_deps \<Rightarrow> jsstring \<Rightarrow> index_entry list \<Rightarrow> generator \<Rightarrow> jsstring option \<times> generator" where
  "Generator_answer deps q context_chunks g =
     (rag_complete deps q context_chunks, g\<lparr>gen_calls := gen_calls g + 1\<rparr>)"

datatype rag_error = GenerationUnavailable

definition no_documents_answer :: jsstring where
  "no_documents_answer = js ''no documents available''"

text \<open>
  Modelled from the spec: a citation of section 4.6, with the 0-based internal page
  number surfaced as a 1-based page (sections 3 and 6).
\<close>

definition citation :: "'v rag_deps \<Rightarrow> index_entry \<Rightarrow> source_ref" where
  "citation deps e =
     \<lparr>source = rag_filename deps (entry_document_id e),
      page = entry_page_number e + 1,
      snippet = entry_snippet e\<rparr>"

text \<open>
  Modelled from the spec: \<open>RagService.ask\<close> of section 4.6, which is not among the
  source files. The corpus is the DocumentStore's list of ingested documents; \<open>k\<close> is
  the default 4 of section 4.3.
\<close>

definition ask ::
  "'v rag_deps \<Rightarrow> (jsstring \<times> document) list \<Rightarrow> generator \<Rightarrow> jsstring \<Rightarrow> bool
     \<Rightarrow> (rag_error + chat_response) \<times> generator" where
  "ask deps corpus g q with_sources =
     (if corpus = [] then (Inr \<lparr>answer = no_documents_answer, resp_sources = None\<rparr>, g)
      else
        let hits = rag_search deps (rag_embed deps q) 4
        in (case Generator_answer deps q hits g of
              (None, g') \<Rightarrow> (Inl GenerationUnavailable, g')
            | (Some text, g') \<Rightarrow>
                (Inr \<lparr>answer = text,
                      resp_sources =
                        (if with_sources then Some (map (citation deps) hits) else None)\<rparr>,
                 g')))"

section \<open>Reading a rendered tree\<close>

text \<open>The numbers among the children of an element.\<close>

fun shown_numbers :: "child list \<Rightarrow> int list" where
  "shown_numbers [] = []"
| "shown_numbers (NumNode n # cs) = n # shown_numbers cs"
| "shown_numbers (TextNode t # cs) = shown_numbers cs"

text \<open>The entries of a message's sources section, none when it is not rendered.\<close>

definition source_views :: "message \<Rightarrow> source_view list" where
  "source_views m = (case render_sources m of None \<Rightarrow> [] | Some vs \<Rightarrow> vs)"

text \<open>
  Reading back the number printed in a string: an optional minus sign, then decimal
  digits.
\<close>

fun digits_value :: "nat \<Rightarrow> jsstring \<Rightarrow> nat" where
  "digits_value acc [] = acc"
| "digits_value acc (c # cs) = digits_value (10 * acc + (unat c - 48)) cs"

definition parse_number :: "jsstring \<Rightarrow> int" where
  "parse_number s =
     (case s of
        [] \<Rightarrow> 0
      | c # cs \<Rightarrow> if c = 0x002D then - int (digits_value 0 cs) else int (digits_value 0 s))"

text \<open>
  The invariant of the transition system: nothing is in flight, or exactly one request is
  and the component is loading.
\<close>

definition in_flight_inv :: "chat_sys \<Rightarrow> bool" where
  "in_flight_inv s \<longleftrightarrow> in_flight s = [] \<or> (length (in_flight s) = 1 \<and> loading (ui s))"

section \<open>Helper lemmas\<close>

lemma source_views_assistant:
  "source_views \<lparr>role = Assistant, content = c, sources = Some ss\<rparr>
     = map (\<lambda>(idx, s). render_source idx s) (enumerate 0 ss)"
  by (cases ss) (simp_all add: source_views_def render_sources_def)

lemma shown_numbers_title:
  "shown_numbers (sv_title (render_source idx s)) = [js_add (page s) 1]"
  by (simp add: render_source_def)

lemma double_exp_small: "n < 2 ^ 53 \<Longrightarrow> double_exp n = 0"
  by (simp add: double_exp.simps [of n])

lemma double_exp_next:
  assumes "2 ^ 53 \<le> n" and "n < 2 ^ 54"
  shows "double_exp n = 1"
proof -
  from assms(2) have "n div 2 < 2 ^ 53" by simp
  then have "double_exp (n div 2) = 0" by (rule double_exp_small)
  with assms(1) show ?thesis by (subst double_exp.simps) simp
qed

lemma round_double_exact:
  assumes "\<bar>x\<bar> \<le> 2 ^ 53"
  shows "round_double x = x"
proof (cases "\<bar>x\<bar> < 2 ^ 53")
  case True
  then have "nat \<bar>x\<bar> < 2 ^ 53" by simp
  then have "double_exp (nat \<bar>x\<bar>) = 0" by (rule double_exp_small)
  then show ?thesis by (simp add: round_double_def)
next
  case False
  with assms have a: "\<bar>x\<bar> = 2 ^ 53" by simp
  then have "2 ^ 53 \<le> nat \<bar>x\<bar>" and "nat \<bar>x\<bar> < 2 ^ 54" by simp_all
  then have e: "double_exp (nat \<bar>x\<bar>) = 1" by (rule double_exp_next)
  from a have "x = 2 ^ 53 \<or> x = - (2 ^ 53)" by (simp add: abs_if split: if_splits)
  then have "x mod 2 = 0" by auto
  with e show ?thesis by (simp add: round_double_def)
qed

lemma js_add_exact: "\<bar>a + b\<bar> \<le> 2 ^ 53 \<Longrightarrow> js_add a b = a + b"
  by (simp add: js_add_def round_double_exact)

lemma js_add_page: "\<bar>p\<bar> < 2 ^ 53 \<Longrightarrow> js_add p 1 = p + 1"
  by (rule js_add_exact) simp

text \<open>From \<open>2^53\<close> on the sum is rounded: \<open>2^53 + 1\<close> is \<open>2^53\<close>.\<close>

lemma js_add_2_53: "js_add (2 ^ 53) 1 = 2 ^ 53"
proof -
  have "double_exp (nat \<bar>2 ^ 53 + 1 :: int\<bar>) = 1"
    by (rule double_exp_next) simp_all
  then show ?thesis by (simp add: js_add_def round_double_def)
qed

lemma commit_swapping:
  assumes "swapping h"
  shows "messages (chat (commit h)) = home_messages h"
    and "home_messages (commit h) = messages (chat h)"
    and "swapping (commit h)"
  using assms by (auto simp: swapping_def commit_def effect_initialMessages_def Let_def)

lemma commit_commit_swapping:
  assumes "swapping h"
  shows "commit (commit h) = h"
  using assms by (simp add: swapping_def commit_def effect_initialMessages_def Let_def)

lemma commits_even_swapping: "swapping h \<Longrightarrow> commits (2 * n) h = h"
  by (induction n) (simp_all add: commit_commit_swapping)

lemma commits_2: "commits 2 h = commit (commit h)"
  by (simp add: numeral_2_eq_2)

lemma Home_submit_asked:
  "snd (Home_submit
     (Home_init\<lparr>chat := (chat Home_init)\<lparr>input := js ''What color is the sky?''\<rparr>\<rparr>))
   = Some asked_pending"
  by (simp add: Home_submit_def Home_init_def ChatInterface_init_def handleSubmit_send_def
        asked_pending_def Let_def falsy_def trim_def js_def is_js_whitespace_def)

lemma asked_state:
  "asked = Home_init
     \<lparr>home_messages :=
        [\<lparr>role = User, content = js ''What color is the sky?'', sources = None\<rparr>],
      home_messages_ref := 1,
      chat := \<lparr>messages =
                 [\<lparr>role = User, content = js ''What color is the sky?'', sources = None\<rparr>],
               input = [], loading = True, showSources = True\<rparr>,
      chat_messages_ref := 1, seen_initialMessages := 1, seen_messages := 1, next_ref := 2\<rparr>"
  by (simp add: asked_def commits_2 commit_def Home_submit_def Home_init_def
        ChatInterface_init_def handleSubmit_send_def effect_initialMessages_def
        Let_def falsy_def trim_def js_def is_js_whitespace_def)

text \<open>After the question the page is at rest: a further render changes nothing.\<close>

lemma commit_asked: "commit asked = asked"
  by (simp add: asked_state commit_def Home_init_def Let_def)

lemma first_commit:
  "swapping (commit answer_and_summary)
   \<and> messages (chat (commit answer_and_summary))
       = [\<lparr>role = User, content = js ''Please summarize this document.'', sources = None\<rparr>,
          \<lparr>role = Assistant, content = js ''A text about the sky.'', sources = None\<rparr>]
   \<and> home_messages (commit answer_and_summary)
       = [\<lparr>role = User, content = js ''What color is the sky?'', sources = None\<rparr>,
          \<lparr>role = Assistant, content = js ''Blue.'', sources = None\<rparr>]"
  by (simp add: answer_and_summary_def asked_state summarize_click_def Home_settle_def
        DocumentList_handleSummarize_def Home_handleSummarize_def handleSubmit_settle_def
        asked_pending_def Home_init_def commit_def swapping_def effect_initialMessages_def
        Let_def)

text \<open>
  A page whose component and Home hold the same array, already seen as
  \<open>initialMessages\<close>, keeps its messages through every further render.
\<close>

lemma commit_settled:
  assumes "messages (chat h) = ms" and "home_messages h = ms"
    and "home_messages_ref h = chat_messages_ref h"
    and "seen_initialMessages h = home_messages_ref h"
  shows "messages (chat (commit h)) = ms \<and> home_messages (commit h) = ms
         \<and> home_messages_ref (commit h) = chat_messages_ref (commit h)
         \<and> seen_initialMessages (commit h) = home_messages_ref (commit h)"
  using assms by (simp add: commit_def Let_def)

lemma commits_settled:
  assumes "messages (chat h) = ms" and "home_messages h = ms"
    and "home_messages_ref h = chat_messages_ref h"
    and "seen_initialMessages h = home_messages_ref h"
  shows "messages (chat (commits n h)) = ms"
  using assms
proof (induction n arbitrary: h)
  case 0
  then show ?case by simp
next
  case (Suc n)
  from commit_settled [OF Suc.prems] Suc.IH [of "commit h"] show ?case by simp
qed

text \<open>
  When the summary arrives while the component's own messages have not changed since the
  last commit, the chat shows the two messages of the summary after the next render and
  after every later one.
\<close>

lemma summarize_when_chat_idle:
  assumes "chat_messages_ref h = seen_messages h" and "seen_initialMessages h < next_ref h"
  shows "messages (chat (commits (Suc n) (summarize_click docId fname (Inr s) h)))
           = [\<lparr>role = User, content = js ''Please summarize this document.'', sources = None\<rparr>,
              \<lparr>role = Assistant, content = s, sources = None\<rparr>]"
proof -
  let ?h1 = "commit (summarize_click docId fname (Inr s) h)"
  let ?ms = "[\<lparr>role = User, content = js ''Please summarize this document.'', sources = None\<rparr>,
              \<lparr>role = Assistant, content = s, sources = None\<rparr>]"
  from assms have "messages (chat ?h1) = ?ms" and "home_messages ?h1 = ?ms"
    and "home_messages_ref ?h1 = chat_messages_ref ?h1"
    and "seen_initialMessages ?h1 = home_messages_ref ?h1"
    by (simp_all add: summarize_click_def DocumentList_handleSummarize_def
          Home_handleSummarize_def commit_def effect_initialMessages_def Let_def)
  then have "messages (chat (commits n ?h1)) = ?ms" by (rule commits_settled)
  then show ?thesis by simp
qed

lemma map_enumerate_ignore: "map (\<lambda>x. f (snd x)) (enumerate n xs) = map f xs"
  by (induction xs arbitrary: n) simp_all

lemma rev_dropWhile_takeWhile:
  "xs = rev (dropWhile P (rev xs)) @ rev (takeWhile P (rev xs))"
  by (metis rev_append rev_rev_ident takeWhile_dropWhile_id)

lemma trim_decompose:
  "s = takeWhile is_js_whitespace s @ trim s
         @ rev (takeWhile is_js_whitespace (rev (dropWhile is_js_whitespace s)))"
proof -
  have "dropWhile is_js_whitespace s
          = trim s @ rev (takeWhile is_js_whitespace (rev (dropWhile is_js_whitespace s)))"
    unfolding trim_def by (rule rev_dropWhile_takeWhile)
  then show ?thesis
    by (metis takeWhile_dropWhile_id)
qed

lemma trim_last: "trim s \<noteq> [] \<Longrightarrow> \<not> is_js_whitespace (last (trim s))"
  by (simp add: trim_def last_rev hd_dropWhile)

lemma trim_hd: 
  assumes "trim s \<noteq> []" shows "\<not> is_js_whitespace (hd (trim s))"
proof -
  let ?t = "dropWhile is_js_whitespace s"
  from assms have ne: "dropWhile is_js_whitespace (rev ?t) \<noteq> []" by (simp add: trim_def)
  then have tne: "?t \<noteq> []" by (metis dropWhile.simps(1) rev.simps(1))
  have "hd (trim s) = last (dropWhile is_js_whitespace (rev ?t))"
    using ne by (simp add: trim_def hd_rev)
  also have "\<dots> = last (rev ?t)"
    using ne by (metis takeWhile_dropWhile_id last_appendR)
  also have "\<dots> = hd ?t" using tne by (simp add: last_rev)
  finally show ?thesis using tne by (simp add: hd_dropWhile)
qed

lemma trim_ends_whitespace:
  "list_all is_js_whitespace (takeWhile is_js_whitespace s) \<and>
   list_all is_js_whitespace (rev (takeWhile is_js_whitespace (rev (dropWhile is_js_whitespace s))))"
  by (simp add: list_all_iff) (meson set_takeWhileD)

lemma handleSubmit_send_blocked:
  "falsy (trim (input st)) \<or> loading st \<Longrightarrow> handleSubmit_send st = (st, None)"
  by (auto simp: handleSubmit_send_def)

lemma handleSubmit_settle_loading: "\<not> loading (fst (handleSubmit_settle p outcome st))"
  by (simp add: handleSubmit_settle_def Let_def split: sum.splits)

lemma in_flight_inv_step:
  assumes "in_flight_inv s"
  shows "in_flight_inv (chat_step s e)"
proof (cases e)
  case (SetInput v)
  with assms show ?thesis by (auto simp: in_flight_inv_def)
next
  case (SetShowSources b)
  with assms show ?thesis by (auto simp: in_flight_inv_def)
next
  case Submit
  show ?thesis
  proof (cases "falsy (trim (input (ui s))) \<or> loading (ui s)")
    case True
    then have "handleSubmit_send (ui s) = (ui s, None)" by (rule handleSubmit_send_blocked)
    with assms Submit show ?thesis by (simp add: in_flight_inv_def)
  next
    case False
    with assms have "in_flight s = []" by (auto simp: in_flight_inv_def)
    with False Submit show ?thesis
      by (simp add: in_flight_inv_def handleSubmit_send_def Let_def)
  qed
next
  case (Settle i outcome)
  show ?thesis
  proof (cases "i < length (in_flight s)")
    case True
    with assms have "length (in_flight s) = 1" and "i = 0" by (auto simp: in_flight_inv_def)
    with Settle True show ?thesis by (simp add: in_flight_inv_def)
  next
    case False
    with assms Settle show ?thesis by simp
  qed
next
  case (InitialMessages ms)
  with assms show ?thesis by (auto simp: in_flight_inv_def effect_initialMessages_def)
qed

lemma in_flight_inv_foldl:
  "in_flight_inv s \<Longrightarrow> in_flight_inv (foldl chat_step s evs)"
  by (induction evs arbitrary: s) (simp_all add: in_flight_inv_step)

lemma in_flight_inv_run: "in_flight_inv (chat_run ms evs)"
  unfolding chat_run_def
  by (rule in_flight_inv_foldl) (simp add: in_flight_inv_def chat_start_def)

lemma unat_digit: "d < 10 \<Longrightarrow> unat (digit d) = 48 + d"
proof -
  assume "d < 10"
  have "unat (digit d) = (48 + d) mod 2 ^ 16"
    unfolding digit_def by (subst unat_of_nat) simp
  with \<open>d < 10\<close> show ?thesis by simp
qed

lemma digits_value_snoc:
  "digits_value acc (xs @ [c]) = 10 * digits_value acc xs + (unat c - 48)"
  by (induction xs arbitrary: acc) simp_all

lemma digits_value_digits: "digits_value 0 (digits n) = n"
proof (induction n rule: digits.induct)
  case (1 n)
  show ?case
  proof (cases "n < 10")
    case True
    then show ?thesis by (simp add: digits.simps [of n] unat_digit)
  next
    case False
    with 1 have "digits_value 0 (digits (n div 10)) = n div 10" by simp
    with False show ?thesis
      by (simp add: digits.simps [of n] digits_value_snoc unat_digit)
  qed
qed

lemma digit_not_minus: "d < 10 \<Longrightarrow> digit d \<noteq> 0x002D"
proof
  assume "d < 10" and "digit d = 0x002D"
  then have "unat (digit d) = unat (0x002D :: 16 word)" by simp
  with \<open>d < 10\<close> show False by (simp add: unat_digit)
qed

lemma digits_head: "\<exists>c cs. digits n = c # cs \<and> c \<noteq> 0x002D"
proof (induction n rule: digits.induct)
  case (1 n)
  show ?case
  proof (cases "n < 10")
    case True
    then show ?thesis by (simp add: digits.simps [of n] digit_not_minus)
  next
    case False
    with 1 obtain c cs where "digits (n div 10) = c # cs" and "c \<noteq> 0x002D" by blast
    with False show ?thesis by (simp add: digits.simps [of n])
  qed
qed

lemma parse_number_to_string: "parse_number (number_to_string i) = i"
proof (cases "i < 0")
  case True
  then show ?thesis by (simp add: parse_number_def number_to_string_def digits_value_digits)
next
  case False
  obtain c cs where d: "digits (nat i) = c # cs" and c: "c \<noteq> 0x002D"
    using digits_head by blast
  have "int (digits_value 0 (digits (nat i))) = i"
    using False by (simp add: digits_value_digits)
  with False d c show ?thesis by (simp add: parse_number_def number_to_string_def)
qed

lemma render_sources_nonempty:
  assumes "role m = Assistant" and "sources m = Some ss" and "ss \<noteq> []"
  shows "render_sources m = Some (map (\<lambda>(idx, s). render_source idx s) (enumerate 0 ss))"
  using assms by (simp add: render_sources_def)

lemma render_sources_absent:
  "sources m = None \<or> sources m = Some [] \<Longrightarrow> render_sources m = None"
  by (auto simp: render_sources_def)

lemma render_message_sources:
  "map (mv_sources \<circ> (\<lambda>(index, m). render_message index m)) (enumerate n ms)
     = map render_sources ms"
  by (induction ms arbitrary: n) (simp_all add: render_message_def)

lemma card_key_render_card: "card_key (render_card st e) = fst e"
  by (cases e) (simp add: render_card_def)

lemma cards_after_fetch:
  "cards_of (DocumentList_render (fst (fetchDocuments (Inr d) st)))
     = map (render_card st) d"
proof (cases d)
  case Nil
  then show ?thesis by (simp add: fetchDocuments_def DocumentList_render_def Let_def)
next
  case (Cons e es)
  have "map (render_card (st\<lparr>docs_loading := True, documents := d, docs_loading := False\<rparr>)) d
          = map (render_card st) d"
    by (rule map_cong) (auto simp: render_card_def)
  with Cons show ?thesis
    by (simp add: fetchDocuments_def DocumentList_render_def Let_def)
qed

lemma one_card_per_key:
  assumes "distinct (map fst d)" and "k \<in> fst ` set d"
  shows "length (filter (\<lambda>c. card_key c = k) (map (render_card st) d)) = 1"
  using assms
proof (induction d)
  case Nil
  then show ?case by simp
next
  case (Cons e es)
  show ?case
  proof (cases "fst e = k")
    case True
    with Cons.prems have "k \<notin> fst ` set es" by auto
    then have "filter (\<lambda>c. card_key c = k) (map (render_card st) es) = []"
      by (auto simp: filter_empty_conv card_key_render_card)
    with True show ?thesis by (simp add: card_key_render_card)
  next
    case False
    with Cons.prems have "distinct (map fst es)" and "k \<in> fst ` set es" by auto
    with Cons.IH have "length (filter (\<lambda>c. card_key c = k) (map (render_card st) es)) = 1"
      by simp
    with False show ?thesis by (simp add: card_key_render_card)
  qed
qed

lemma Generator_answer_counts:
  "gen_calls (snd (Generator_answer deps q hits g)) = gen_calls g + 1"
  by (simp add: Generator_answer_def)

lemma ask_nonempty_calls_generator:
  "corpus \<noteq> [] \<Longrightarrow> gen_calls (snd (ask deps corpus g q b)) = gen_calls g + 1"
  by (simp add: ask_def Let_def Generator_answer_def split: option.splits)

lemma onDrop_posts_first_accepted:
  "posted (snd (onDrop acceptedFiles post st))
     = (case acceptedFiles of [] \<Rightarrow> None | f # rest \<Rightarrow> Some f)"
  by (simp add: onDrop_def Let_def split: list.splits sum.splits)

section \<open>Source citations in the chat\<close>

text \<open>
  C1, as amended. For every assistant message of the chat with a sources array whose
  page numbers are below \<open>2^53\<close> in magnitude, the page number displayed for each entry
  is the entry's \<open>page\<close> field plus one, in the order of the array: the interface treats
  the field of the Ask response as 0-based and turns it into a 1-based page number when
  it renders it.
\<close>

theorem displayed_page_is_api_page_plus_one:
  assumes "list_all (\<lambda>s. \<bar>page s\<bar> < 2 ^ 53) ss"
  shows "map (\<lambda>v. shown_numbers (sv_title v))
           (source_views \<lparr>role = Assistant, content = c, sources = Some ss\<rparr>)
         = map (\<lambda>s. [page s + 1]) ss"
proof -
  have "map (\<lambda>v. shown_numbers (sv_title v))
          (source_views \<lparr>role = Assistant, content = c, sources = Some ss\<rparr>)
        = map (\<lambda>x. [js_add (page (snd x)) 1]) (enumerate 0 ss)"
    by (simp add: source_views_assistant shown_numbers_title split_def comp_def)
  also have "\<dots> = map (\<lambda>s. [js_add (page s) 1]) ss"
    by (rule map_enumerate_ignore [where f = "\<lambda>s. [js_add (page s) 1]"])
  also have "\<dots> = map (\<lambda>s. [page s + 1]) ss"
  proof (rule map_cong)
    fix s assume "s \<in> set ss"
    with assms have "\<bar>page s\<bar> < 2 ^ 53" by (simp add: list_all_iff)
    then show "[js_add (page s) 1] = [page s + 1]" by (simp add: js_add_page)
  qed simp
  finally show ?thesis .
qed

theorem displayed_page_is_api_page_plus_one_witness:
  "list_all (\<lambda>s. \<bar>page s\<bar> < 2 ^ 53)
     [\<lparr>source = js ''sky.pdf'', page = 0, snippet = js ''The sky is blue.''\<rparr>,
      \<lparr>source = js ''sky.pdf'', page = 1, snippet = js ''Grass is green.''\<rparr>]
   \<and> map (\<lambda>v. shown_numbers (sv_title v))
         (source_views \<lparr>role = Assistant, content = js ''Blue.'',
            sources = Some [\<lparr>source = js ''sky.pdf'', page = 0,
                             snippet = js ''The sky is blue.''\<rparr>,
                            \<lparr>source = js ''sky.pdf'', page = 1,
                             snippet = js ''Grass is green.''\<rparr>]\<rparr>)
       = [[1], [2]]"
proof -
  let ?ss = "[\<lparr>source = js ''sky.pdf'', page = 0, snippet = js ''The sky is blue.''\<rparr>,
              \<lparr>source = js ''sky.pdf'', page = 1, snippet = js ''Grass is green.''\<rparr>]"
  have h: "list_all (\<lambda>s. \<bar>page s\<bar> < 2 ^ 53) ?ss" by simp
  from displayed_page_is_api_page_plus_one [OF h, of "js ''Blue.''"] h
  show ?thesis by simp
qed

text \<open>
  C1 as stated fails: a response whose first source has the 1-based page 1, as in the
  example of section 8, is displayed with page 2, not page 1.
\<close>

theorem displayed_page_counterexample:
  "map (\<lambda>v. shown_numbers (sv_title v))
       (source_views \<lparr>role = Assistant, content = js ''The sky is blue.'',
          sources = Some [\<lparr>source = js ''sky.pdf'', page = 1,
                           snippet = js ''The sky is blue.''\<rparr>]\<rparr>)
   \<noteq> [[1]]"
  by (simp add: source_views_def render_sources_def render_source_def enumerate_eq_zip
        js_add_exact)

text \<open>
  C6. For an assistant message with a non-empty sources array (of page numbers below
  \<open>2^53\<close> in magnitude), the sources section has one entry per source, in the order of
  the array: the entry at position \<open>i\<close> shows the filename, the page (rendered as
  \<open>page + 1\<close>) and the snippet of the source at position \<open>i\<close>. When the array is absent
  or empty no sources section is rendered. The chat shows, for each of its messages in
  order, that message's sources section.
\<close>

theorem sources_rendered_in_order:
  "(role m = Assistant \<and> sources m = Some ss \<and> ss \<noteq> []
      \<and> list_all (\<lambda>s. \<bar>page s\<bar> < 2 ^ 53) ss \<longrightarrow>
      (\<exists>vs. render_sources m = Some vs \<and> length vs = length ss \<and>
         (\<forall>i<length ss.
            vs ! i = \<lparr>sv_key = i,
                      sv_title = [TextNode (source (ss ! i)), TextNode (js '' (Page ''),
                                  NumNode (page (ss ! i) + 1), TextNode (js '')'')],
                      sv_snippet = [TextNode (snippet (ss ! i))]\<rparr>)))
   \<and> (sources m = None \<or> sources m = Some [] \<longrightarrow> render_sources m = None)
   \<and> (messages st \<noteq> [] \<longrightarrow>
        map_option (map mv_sources) (cv_messages (ChatInterface_render st))
          = Some (map render_sources (messages st)))"
proof (intro conjI impI)
  assume a: "role m = Assistant \<and> sources m = Some ss \<and> ss \<noteq> []
               \<and> list_all (\<lambda>s. \<bar>page s\<bar> < 2 ^ 53) ss"
  let ?vs = "map (\<lambda>(idx, s). render_source idx s) (enumerate 0 ss)"
  from a have "render_sources m = Some ?vs" by (simp add: render_sources_nonempty)
  moreover have "length ?vs = length ss" by simp
  moreover have "\<forall>i<length ss.
      ?vs ! i = \<lparr>sv_key = i,
                  sv_title = [TextNode (source (ss ! i)), TextNode (js '' (Page ''),
                              NumNode (page (ss ! i) + 1), TextNode (js '')'')],
                  sv_snippet = [TextNode (snippet (ss ! i))]\<rparr>"
  proof (intro allI impI)
    fix i assume i: "i < length ss"
    with a have "\<bar>page (ss ! i)\<bar> < 2 ^ 53" by (simp add: list_all_length)
    then have "js_add (page (ss ! i)) 1 = page (ss ! i) + 1" by (rule js_add_page)
    with i show "?vs ! i = \<lparr>sv_key = i,
                  sv_title = [TextNode (source (ss ! i)), TextNode (js '' (Page ''),
                              NumNode (page (ss ! i) + 1), TextNode (js '')'')],
                  sv_snippet = [TextNode (snippet (ss ! i))]\<rparr>"
      by (simp add: nth_enumerate_eq render_source_def)
  qed
  ultimately show "\<exists>vs. render_sources m = Some vs \<and> length vs = length ss \<and>
         (\<forall>i<length ss.
            vs ! i = \<lparr>sv_key = i,
                      sv_title = [TextNode (source (ss ! i)), TextNode (js '' (Page ''),
                                  NumNode (page (ss ! i) + 1), TextNode (js '')'')],
                      sv_snippet = [TextNode (snippet (ss ! i))]\<rparr>)"
    by blast
next
  assume "sources m = None \<or> sources m = Some []"
  then show "render_sources m = None" by (rule render_sources_absent)
next
  assume "messages st \<noteq> []"
  then show "map_option (map mv_sources) (cv_messages (ChatInterface_render st))
          = Some (map render_sources (messages st))"
    by (simp add: ChatInterface_render_def render_message_sources)
qed

theorem sources_rendered_in_order_witness:
  "role \<lparr>role = Assistant, content = js ''Blue.'',
      sources = Some [\<lparr>source = js ''a.pdf'', page = 0, snippet = js ''The sky is blue.''\<rparr>,
                      \<lparr>source = js ''b.pdf'', page = 4, snippet = js ''Grass is green.''\<rparr>]\<rparr>
     = Assistant
   \<and> render_sources \<lparr>role = Assistant, content = js ''Blue.'',
      sources = Some [\<lparr>source = js ''a.pdf'', page = 0, snippet = js ''The sky is blue.''\<rparr>,
                      \<lparr>source = js ''b.pdf'', page = 4, snippet = js ''Grass is green.''\<rparr>]\<rparr>
     = Some [\<lparr>sv_key = 0,
              sv_title = [TextNode (js ''a.pdf''), TextNode (js '' (Page ''), NumNode 1,
                          TextNode (js '')'')],
              sv_snippet = [TextNode (js ''The sky is blue.'')]\<rparr>,
             \<lparr>sv_key = 1,
              sv_title = [TextNode (js ''b.pdf''), TextNode (js '' (Page ''), NumNode 5,
                          TextNode (js '')'')],
              sv_snippet = [TextNode (js ''Grass is green.'')]\<rparr>]
   \<and> render_sources \<lparr>role = Assistant, content = js ''Blue.'', sources = Some []\<rparr> = None
   \<and> render_sources \<lparr>role = Assistant, content = js ''Blue.'', sources = None\<rparr> = None"
proof -
  let ?ss = "[\<lparr>source = js ''a.pdf'', page = 0, snippet = js ''The sky is blue.''\<rparr>,
              \<lparr>source = js ''b.pdf'', page = 4, snippet = js ''Grass is green.''\<rparr>]"
  let ?m = "\<lparr>role = Assistant, content = js ''Blue.'', sources = Some ?ss\<rparr>"
  have h: "role ?m = Assistant \<and> sources ?m = Some ?ss \<and> ?ss \<noteq> []
             \<and> list_all (\<lambda>s. \<bar>page s\<bar> < 2 ^ 53) ?ss" by simp
  have g: "render_sources ?m = Some [\<lparr>sv_key = 0,
              sv_title = [TextNode (js ''a.pdf''), TextNode (js '' (Page ''), NumNode 1,
                          TextNode (js '')'')],
              sv_snippet = [TextNode (js ''The sky is blue.'')]\<rparr>,
             \<lparr>sv_key = 1,
              sv_title = [TextNode (js ''b.pdf''), TextNode (js '' (Page ''), NumNode 5,
                          TextNode (js '')'')],
              sv_snippet = [TextNode (js ''Grass is green.'')]\<rparr>]"
    by (simp add: render_sources_def render_source_def js_add_exact)
  from sources_rendered_in_order [of ?m ?ss "ChatInterface_init [?m]"] h g
  show ?thesis by (simp add: render_sources_def)
qed

section \<open>Summaries in the chat\<close>

text \<open>
  C3. After a successful summarize request the chat is meant to show exactly two
  messages, "Please summarize this document." and the summary. The code misses this when
  the answer to a pending question and the summary arrive before the same render: the
  effect on \<open>[initialMessages]\<close> gives the summary to the component while the effect on
  \<open>[messages, onMessagesChange]\<close> gives the answered conversation to Home, and from then
  on every render exchanges the two lists. In the run \<open>answer_and_summary\<close> the chat shows
  the summary after every odd number of renders and the question with its answer after
  every even number, so it never comes to rest on the two messages of the summary.
\<close>

theorem summary_and_answer_swap_forever:
  "messages (chat (commits (2 * n + 1) answer_and_summary))
     = [\<lparr>role = User, content = js ''Please summarize this document.'', sources = None\<rparr>,
        \<lparr>role = Assistant, content = js ''A text about the sky.'', sources = None\<rparr>]
   \<and> messages (chat (commits (2 * n + 2) answer_and_summary))
     = [\<lparr>role = User, content = js ''What color is the sky?'', sources = None\<rparr>,
        \<lparr>role = Assistant, content = js ''Blue.'', sources = None\<rparr>]"
proof -
  let ?x = "commit answer_and_summary"
  have sw: "swapping ?x" using first_commit by blast
  then have sw2: "swapping (commit ?x)" by (rule commit_swapping(3))
  have "commits (2 * n + 1) answer_and_summary = commits (2 * n) ?x" by simp
  also have "\<dots> = ?x" using sw by (rule commits_even_swapping)
  finally have odd: "commits (2 * n + 1) answer_and_summary = ?x" .
  have "commits (2 * n + 2) answer_and_summary = commits (2 * n) (commit ?x)" by simp
  also have "\<dots> = commit ?x" using sw2 by (rule commits_even_swapping)
  finally have even: "commits (2 * n + 2) answer_and_summary = commit ?x" .
  have "messages (chat (commit ?x)) = home_messages ?x"
    using sw by (rule commit_swapping(1))
  with odd even first_commit show ?thesis by simp
qed

section \<open>The chat request\<close>

text \<open>
  C4. When the form is submitted with an input that is not only whitespace (and no
  request is in flight), the body of the request to the chat endpoint has \<open>question\<close>
  equal to the input without its leading and trailing whitespace, and \<open>include_sources\<close>
  equal to the state of the "Show sources in responses" switch. The trimmed question is
  the input between two runs of whitespace and neither starts nor ends with whitespace.
  The switch starts checked and holds the last value it was set to.
\<close>

theorem chat_request_body:
  assumes "\<not> falsy (trim (input st))" and "\<not> loading st"
  shows "map_option request (snd (handleSubmit_send st))
           = Some \<lparr>question = trim (input st), include_sources = showSources st\<rparr>
         \<and> (\<exists>a b. input st = a @ trim (input st) @ b
                \<and> list_all is_js_whitespace a \<and> list_all is_js_whitespace b)
         \<and> \<not> is_js_whitespace (hd (trim (input st)))
         \<and> \<not> is_js_whitespace (last (trim (input st)))
         \<and> showSources (ChatInterface_init ms) = True
         \<and> showSources (ui (chat_step s (SetShowSources b))) = b"
proof -
  have 1: "map_option request (snd (handleSubmit_send st))
           = Some \<lparr>question = trim (input st), include_sources = showSources st\<rparr>"
    using assms by (simp add: handleSubmit_send_def Let_def)
  have 2: "\<exists>a b. input st = a @ trim (input st) @ b
                \<and> list_all is_js_whitespace a \<and> list_all is_js_whitespace b"
    using trim_decompose [of "input st"] trim_ends_whitespace [of "input st"] by blast
  have 3: "\<not> is_js_whitespace (hd (trim (input st)))"
    using assms(1) by (simp add: falsy_def trim_hd)
  have 4: "\<not> is_js_whitespace (last (trim (input st)))"
    using assms(1) by (simp add: falsy_def trim_last)
  have 5: "showSources (ChatInterface_init ms) = True"
    by (simp add: ChatInterface_init_def)
  have 6: "showSources (ui (chat_step s (SetShowSources b))) = b" by simp
  from 1 2 3 4 5 6 show ?thesis by blast
qed

theorem chat_request_body_witness:
  "\<not> falsy (trim (input \<lparr>messages = [], input = js ''  What color is the sky? '', loading = False, showSources = False\<rparr>))
   \<and> \<not> loading \<lparr>messages = [], input = js ''  What color is the sky? '', loading = False, showSources = False\<rparr>
   \<and> map_option request (snd (handleSubmit_send
         \<lparr>messages = [], input = js ''  What color is the sky? '', loading = False, showSources = False\<rparr>))
       = Some \<lparr>question = js ''What color is the sky?'', include_sources = False\<rparr>"
proof -
  let ?st = "\<lparr>messages = [], input = js ''  What color is the sky? '', loading = False, showSources = False\<rparr>"
  have t: "trim (input ?st) = js ''What color is the sky?''"
    by (simp add: trim_def js_def is_js_whitespace_def)
  have h1: "\<not> falsy (trim (input ?st))" unfolding t by (simp add: falsy_def js_def)
  have h2: "\<not> loading ?st" by simp
  from chat_request_body [OF h1 h2] h1 h2 show ?thesis unfolding t by simp
qed


section \<open>A failed chat request\<close>

text \<open>
  C5. When the request of a submitted message fails, whatever the error carries and
  whatever happened to the component in the meantime, the messages become those present
  at submission followed by the user's message and exactly one assistant message with
  the fixed text "Sorry, there was an error processing your question. Please try
  again."; the loading flag is cleared. Nothing of the error reaches the message.
\<close>

theorem failed_chat_request:
  assumes "handleSubmit_send st = (st1, Some p)"
  shows "messages (fst (handleSubmit_settle p (Inl e) st2))
           = messages st @ [\<lparr>role = User, content = input st, sources = None\<rparr>,
                            \<lparr>role = Assistant, content = error_text, sources = None\<rparr>]
         \<and> \<not> loading (fst (handleSubmit_settle p (Inl e) st2))
         \<and> error_text
             = js ''Sorry, there was an error processing your question. Please try again.''"
proof -
  from assms have "updatedMessages p
      = messages st @ [\<lparr>role = User, content = input st, sources = None\<rparr>]"
    by (auto simp: handleSubmit_send_def Let_def split: if_splits)
  then show ?thesis
    by (simp add: handleSubmit_settle_def Let_def error_text_def)
qed

theorem failed_chat_request_witness:
  "handleSubmit_send \<lparr>messages = [], input = js ''hi'', loading = False, showSources = True\<rparr>
     = (\<lparr>messages = [\<lparr>role = User, content = js ''hi'', sources = None\<rparr>], input = [],
         loading = True, showSources = True\<rparr>,
        Some \<lparr>request = \<lparr>question = js ''hi'', include_sources = True\<rparr>,
              updatedMessages = [\<lparr>role = User, content = js ''hi'', sources = None\<rparr>]\<rparr>)
   \<and> messages (fst (handleSubmit_settle
         \<lparr>request = \<lparr>question = js ''hi'', include_sources = True\<rparr>,
           updatedMessages = [\<lparr>role = User, content = js ''hi'', sources = None\<rparr>]\<rparr>
         (Inl \<lparr>err_message = js ''Network Error'', err_stack = js ''at XMLHttpRequest''\<rparr>)
         \<lparr>messages = [\<lparr>role = User, content = js ''hi'', sources = None\<rparr>], input = [],
           loading = True, showSources = True\<rparr>))
     = [\<lparr>role = User, content = js ''hi'', sources = None\<rparr>,
        \<lparr>role = Assistant, content = error_text, sources = None\<rparr>]"
proof -
  have h: "handleSubmit_send \<lparr>messages = [], input = js ''hi'', loading = False, showSources = True\<rparr>
     = (\<lparr>messages = [\<lparr>role = User, content = js ''hi'', sources = None\<rparr>], input = [],
         loading = True, showSources = True\<rparr>,
        Some \<lparr>request = \<lparr>question = js ''hi'', include_sources = True\<rparr>,
              updatedMessages = [\<lparr>role = User, content = js ''hi'', sources = None\<rparr>]\<rparr>)"
    by (simp add: handleSubmit_send_def Let_def falsy_def trim_def js_def is_js_whitespace_def)
  from failed_chat_request [OF h] h show ?thesis by simp
qed

section \<open>Blocked submissions\<close>

text \<open>
  C10. A submission while the input is empty or only whitespace, or while the component
  is loading, returns early: no request is issued and the state, with its message list,
  is unchanged. Hence, after any sequence of events from the initial state, at most one
  chat request is in flight.
\<close>

theorem one_chat_request_in_flight:
  "(falsy (trim (input st)) \<or> loading st \<longrightarrow>
      handleSubmit_send st = (st, None)
      \<and> chat_step \<lparr>ui = st, in_flight = reqs\<rparr> Submit = \<lparr>ui = st, in_flight = reqs\<rparr>)
   \<and> length (in_flight (chat_run ms evs)) \<le> 1"
proof -
  have "length (in_flight (chat_run ms evs)) \<le> 1"
    using in_flight_inv_run [of ms evs] by (auto simp: in_flight_inv_def)
  then show ?thesis by (simp add: handleSubmit_send_blocked)
qed

theorem one_chat_request_in_flight_witness:
  "(falsy (trim (input \<lparr>messages = [], input = js ''   '', loading = False, showSources = True\<rparr>))
     \<or> loading \<lparr>messages = [], input = js ''   '', loading = False, showSources = True\<rparr>)
   \<and> handleSubmit_send \<lparr>messages = [], input = js ''   '', loading = False, showSources = True\<rparr>
       = (\<lparr>messages = [], input = js ''   '', loading = False, showSources = True\<rparr>, None)
   \<and> length (in_flight (chat_run []
        [SetInput (js ''a''), Submit, SetInput (js ''b''), Submit])) = 1"
proof -
  let ?st = "\<lparr>messages = [], input = js ''   '', loading = False, showSources = True\<rparr>"
  have h: "falsy (trim (input ?st)) \<or> loading ?st"
    by (simp add: falsy_def trim_def js_def is_js_whitespace_def)
  have n: "in_flight (chat_run [] [SetInput (js ''a''), Submit, SetInput (js ''b''), Submit]) \<noteq> []"
    by (simp add: chat_run_def chat_start_def ChatInterface_init_def handleSubmit_send_def
          Let_def falsy_def trim_def js_def is_js_whitespace_def)
  from one_chat_request_in_flight
         [of ?st "[]" "[]" "[SetInput (js ''a''), Submit, SetInput (js ''b''), Submit]"] h n
  show ?thesis by (cases "in_flight (chat_run [] [SetInput (js ''a''), Submit, SetInput (js ''b''), Submit])") auto
qed


section \<open>The upload status\<close>

text \<open>
  C7. When the upload of the first accepted file succeeds with a response carrying
  \<open>filename\<close> and \<open>num_chunks\<close>, the status shown is a success whose message is
  "Successfully processed <filename> with <num_chunks> text chunks": the filename as
  returned and the chunk count (an integer of magnitude below \<open>2^53\<close>, which JavaScript
  prints with every decimal digit) printed so that it reads back as the same number.
  It is that file which was posted, and the uploading flag is cleared.
\<close>

theorem upload_success_status:
  assumes "post f = Inr r" and "\<bar>num_chunks r\<bar> < 2 ^ 53"
  shows "uploadStatus (fst (onDrop (f # fs) post st))
           = Some \<lparr>success = True,
                   message = js ''Successfully processed '' @ resp_filename r
                     @ js '' with '' @ number_to_string (num_chunks r)
                     @ js '' text chunks''\<rparr>
         \<and> parse_number (number_to_string (num_chunks r)) = num_chunks r
         \<and> posted (snd (onDrop (f # fs) post st)) = Some f
         \<and> \<not> uploading (fst (onDrop (f # fs) post st))"
  using assms(1) by (simp add: onDrop_def Let_def parse_number_to_string)

theorem upload_success_status_witness:
  "(\<lambda>f. Inr \<lparr>resp_filename = file_name f, num_chunks = 12\<rparr>)
      \<lparr>file_name = js ''paper.pdf'', file_type = js ''application/pdf'', file_bytes = []\<rparr>
     = (Inr \<lparr>resp_filename = js ''paper.pdf'', num_chunks = 12\<rparr> :: http_error + upload_response)
   \<and> uploadStatus (fst (onDrop
        [\<lparr>file_name = js ''paper.pdf'', file_type = js ''application/pdf'', file_bytes = []\<rparr>]
        (\<lambda>f. Inr \<lparr>resp_filename = file_name f, num_chunks = 12\<rparr>) DocumentUpload_init))
     = Some \<lparr>success = True,
             message = js ''Successfully processed paper.pdf with 12 text chunks''\<rparr>"
proof -
  let ?f = "\<lparr>file_name = js ''paper.pdf'', file_type = js ''application/pdf'', file_bytes = []\<rparr>"
  let ?post = "\<lambda>f. Inr \<lparr>resp_filename = file_name f, num_chunks = 12\<rparr>
                 :: http_error + upload_response"
  have h: "?post ?f = Inr \<lparr>resp_filename = js ''paper.pdf'', num_chunks = 12\<rparr>" by simp
  have b: "\<bar>num_chunks \<lparr>resp_filename = js ''paper.pdf'', num_chunks = 12\<rparr>\<bar> < 2 ^ 53"
    by simp
  have n: "number_to_string 12 = js ''12''"
    by (simp add: number_to_string_def digits.simps digit_def js_def)
  from upload_success_status
         [of ?post ?f "\<lparr>resp_filename = js ''paper.pdf'', num_chunks = 12\<rparr>" "[]"
             DocumentUpload_init, OF h b] n
  show ?thesis by (simp add: js_def)
qed


section \<open>The document list\<close>

text \<open>
  C8. When the List documents request succeeds with a mapping from document id to
  \<open>{filename, num_pages}\<close> (an object, so its ids are distinct), the document list
  renders one card per entry of the mapping, in its order, showing the filename and the
  page count; every id of the mapping has exactly one card, and no card has another id.
\<close>

theorem document_list_entries:
  assumes "distinct (map fst d)"
  shows "cards_of (DocumentList_render (fst (fetchDocuments (Inr d) st)))
           = map (\<lambda>(k, doc).
                    \<lparr>card_key = k,
                     card_filename = [TextNode (filename doc)],
                     card_pages = [NumNode (num_pages doc), TextNode (js '' pages'')],
                     card_button_disabled = (summarizing st = Some k)\<rparr>) d
         \<and> (\<forall>k \<in> fst ` set d.
               length (filter (\<lambda>c. card_key c = k)
                        (cards_of (DocumentList_render (fst (fetchDocuments (Inr d) st))))) = 1)
         \<and> card_key ` set (cards_of (DocumentList_render (fst (fetchDocuments (Inr d) st))))
             = fst ` set d"
proof -
  have 1: "map (render_card st) d
          = map (\<lambda>(k, doc).
                    \<lparr>card_key = k,
                     card_filename = [TextNode (filename doc)],
                     card_pages = [NumNode (num_pages doc), TextNode (js '' pages'')],
                     card_button_disabled = (summarizing st = Some k)\<rparr>) d"
    by (rule map_cong) (auto simp: render_card_def)
  have 2: "\<forall>k \<in> fst ` set d.
             length (filter (\<lambda>c. card_key c = k) (map (render_card st) d)) = 1"
    using assms one_card_per_key by blast
  have "card_key ` set (map (render_card st) d) = (card_key \<circ> render_card st) ` set d"
    by (simp only: set_map image_comp)
  also have "card_key \<circ> render_card st = fst"
    by (rule ext) (simp add: card_key_render_card)
  finally have 3: "card_key ` set (map (render_card st) d) = fst ` set d" .
  from 1 2 3 show ?thesis unfolding cards_after_fetch by blast
qed

theorem document_list_entries_witness:
  "distinct (map fst [(js ''d1'', \<lparr>filename = js ''a.pdf'', num_pages = 2\<rparr>),
                      (js ''d2'', \<lparr>filename = js ''b.pdf'', num_pages = 7\<rparr>)])
   \<and> DocumentList_render (fst (fetchDocuments
         (Inr [(js ''d1'', \<lparr>filename = js ''a.pdf'', num_pages = 2\<rparr>),
               (js ''d2'', \<lparr>filename = js ''b.pdf'', num_pages = 7\<rparr>)]) DocumentList_init))
     = ListView 2
         [\<lparr>card_key = js ''d1'', card_filename = [TextNode (js ''a.pdf'')],
           card_pages = [NumNode 2, TextNode (js '' pages'')], card_button_disabled = False\<rparr>,
          \<lparr>card_key = js ''d2'', card_filename = [TextNode (js ''b.pdf'')],
           card_pages = [NumNode 7, TextNode (js '' pages'')], card_button_disabled = False\<rparr>]"
proof -
  let ?d = "[(js ''d1'', \<lparr>filename = js ''a.pdf'', num_pages = 2\<rparr>),
             (js ''d2'', \<lparr>filename = js ''b.pdf'', num_pages = 7\<rparr>)]"
  have h: "distinct (map fst ?d)" by (simp add: js_def)
  from document_list_entries [OF h, of DocumentList_init] h
  show ?thesis
    by (simp add: fetchDocuments_def DocumentList_render_def DocumentList_init_def Let_def
          render_card_def)
qed

section \<open>Asking with an empty corpus\<close>

text \<open>
  C2. On a corpus with no ingested documents, \<open>ask\<close> returns the fixed "no documents
  available" answer, whatever the question, and leaves the Generator as it was: its
  invocation count does not change.
\<close>

theorem ask_empty_corpus:
  "ask deps [] g q b = (Inr \<lparr>answer = no_documents_answer, resp_sources = None\<rparr>, g)
   \<and> gen_calls (snd (ask deps [] g q b)) = gen_calls g"
  by (simp add: ask_def)


end
